theory Spec2Isabelle
  imports Main "HOL-Library.Word" "HOL-Library.Stream" "HOL-Library.Multiset"
begin

unbundle bit_operations_syntax

section \<open>JavaScript values used by ChecklistApp.tsx\<close>

text \<open>
  A JavaScript string is a sequence of 16-bit code units. \<open>lit\<close> writes an ASCII literal
  as such a sequence.
\<close>

type_synonym jschar = "16 word"
type_synonym jsstring = "jschar list"

definition lit :: "string \<Rightarrow> jsstring" where
  "lit s = map of_char s"

text \<open>
  The values \<open>JSON.parse\<close> can return. A number is the bit pattern of its IEEE-754
  binary64 value; an object is the list of its own properties, a later member of the
  same name overriding an earlier one as in \<open>JSON.parse\<close>.
\<close>

datatype json =
    JNull
  | JBool bool
  | JNum "64 word"
  | JStr jsstring
  | JArr "json list"
  | JObj "(jsstring \<times> json) list"

text \<open>ToBoolean: \<open>null\<close>, \<open>false\<close>, \<open>+0\<close>, \<open>-0\<close>, \<open>NaN\<close> and \<open>""\<close> are falsy.\<close>

definition is_zero_or_nan :: "64 word \<Rightarrow> bool" where
  "is_zero_or_nan w =
     (let m = w AND 0x7FFFFFFFFFFFFFFF in m = 0 \<or> 0x7FF0000000000000 < m)"

fun ToBoolean :: "json \<Rightarrow> bool" where
  "ToBoolean JNull = False"
| "ToBoolean (JBool b) = b"
| "ToBoolean (JNum w) = (\<not> is_zero_or_nan w)"
| "ToBoolean (JStr s) = (s \<noteq> [])"
| "ToBoolean (JArr xs) = True"
| "ToBoolean (JObj kvs) = True"

definition key_id :: jsstring where "key_id = lit ''id''"
definition key_text :: jsstring where "key_text = lit ''text''"
definition key_completed :: jsstring where "key_completed = lit ''completed''"

text \<open>
  The property reads \<open>x.id\<close>, \<open>x.text\<close> and \<open>x.completed\<close> on a truthy parsed value:
  \<open>None\<close> is \<open>undefined\<close>. Numbers, booleans, strings and arrays have no property of
  these three names.
\<close>

fun get_field :: "json \<Rightarrow> jsstring \<Rightarrow> json option" where
  "get_field (JObj kvs) k = map_of (rev kvs) k"
| "get_field v k = None"

text \<open>
  A text is only ever handed to \<open>JSON.parse\<close>, so it is represented by what
  \<open>JSON.parse\<close> makes of it: a SyntaxError or a value. The empty text is a SyntaxError.
\<close>

datatype document = SyntaxError | Parsed json

text \<open>
  \<open>JSON.stringify\<close> followed by \<open>JSON.parse\<close> on a value built from \<open>json\<close>: a
  non-finite number is written as \<open>null\<close>, \<open>-0\<close> as \<open>0\<close>, everything else comes back
  as it was.
\<close>

fun reparse :: "json \<Rightarrow> json" where
  "reparse JNull = JNull"
| "reparse (JBool b) = JBool b"
| "reparse (JNum w) =
     (if w AND 0x7FF0000000000000 = 0x7FF0000000000000 then JNull
      else if w = 0x8000000000000000 then JNum 0 else JNum w)"
| "reparse (JStr s) = JStr s"
| "reparse (JArr xs) = JArr (map reparse xs)"
| "reparse (JObj kvs) = JObj (map (map_prod (\<lambda>k. k) reparse) kvs)"

definition JSON_stringify :: "json \<Rightarrow> document" where
  "JSON_stringify v = Parsed (reparse v)"

subsection \<open>Trimming and splitting into lines\<close>

text \<open>WhiteSpace and LineTerminator of ECMAScript, all in the basic plane.\<close>

definition is_white_space :: "jschar \<Rightarrow> bool" where
  "is_white_space c =
     (c = 0x09 \<or> c = 0x0A \<or> c = 0x0B \<or> c = 0x0C \<or> c = 0x0D \<or> c = 0x20 \<or> c = 0xA0
      \<or> c = 0x1680 \<or> (0x2000 \<le> c \<and> c \<le> 0x200A) \<or> c = 0x2028 \<or> c = 0x2029
      \<or> c = 0x202F \<or> c = 0x205F \<or> c = 0x3000 \<or> c = 0xFEFF)"

definition trim :: "jsstring \<Rightarrow> jsstring" where
  "trim s = rev (dropWhile is_white_space (rev (dropWhile is_white_space s)))"

text \<open>
  A line ends at a line feed, or at a carriage return directly followed by a line feed;
  a carriage return alone stays in its line. The empty string splits into one empty line.
\<close>

fun split_lines :: "jsstring \<Rightarrow> jsstring list" where
  "split_lines [] = [[]]"
| "split_lines [c] = (if c = 0x0A then [[], []] else [[c]])"
| "split_lines (c # d # cs) =
     (if c = 0x0A then [] # split_lines (d # cs)
      else if c = 0x0D \<and> d = 0x0A then [] # split_lines cs
      else (case split_lines (d # cs) of
              [] \<Rightarrow> [[c]]
            | l # ls \<Rightarrow> (c # l) # ls))"

section \<open>The checklist\<close>

text \<open>
  An item of the list. The declared type of \<open>id\<close> is \<open>string\<close>, and the ids the
  component generates are strings; \<open>importJSON\<close> stores whatever truthy value the file
  has under \<open>id\<close>, so the field holds a parsed value. The operations compare it by
  \<open>===\<close> with a string.
\<close>

record Item =
  id' :: json
  "text" :: jsstring
  completed :: bool

text \<open>
  \<open>cryptoRandomId\<close> (lines 275-281). What the environment supplies to one call is either
  the result of \<open>crypto.randomUUID()\<close>, or, when that call throws, the string
  \<open>Math.random().toString(36)\<close>, of which \<open>slice(2, 9)\<close> is kept. The calls of one
  operation read successive elements of a stream of such supplies.
\<close>

datatype entropy = RandomUUID jsstring | MathRandom jsstring

fun cryptoRandomId :: "entropy \<Rightarrow> jsstring" where
  "cryptoRandomId (RandomUUID u) = u"
| "cryptoRandomId (MathRandom r) = take 7 (drop 2 r)"

text \<open>\<open>addItem\<close> (lines 36-42), as the update of the list.\<close>

definition addItem :: "entropy stream \<Rightarrow> jsstring \<Rightarrow> Item list \<Rightarrow> Item list" where
  "addItem rnd input prev =
     (let trimmed = trim input in
      if trimmed = [] then prev
      else \<lparr>id' = JStr (cryptoRandomId (shd rnd)), text = trimmed, completed = False\<rparr> # prev)"

text \<open>\<open>addBulkItems\<close> (lines 44-59); \<open>newItems\<close> is the \<open>lines.map\<close> of lines 51-55.\<close>

fun newItems :: "entropy stream \<Rightarrow> jsstring list \<Rightarrow> Item list" where
  "newItems rnd [] = []"
| "newItems rnd (line # lines) =
     \<lparr>id' = JStr (cryptoRandomId (shd rnd)), text = line, completed = False\<rparr>
       # newItems (stl rnd) lines"

definition bulk_lines :: "jsstring \<Rightarrow> jsstring list" where
  "bulk_lines bulkInput = filter (\<lambda>line. length line > 0) (map trim (split_lines bulkInput))"

definition addBulkItems :: "entropy stream \<Rightarrow> jsstring \<Rightarrow> Item list \<Rightarrow> Item list" where
  "addBulkItems rnd bulkInput prev =
     (let lines = bulk_lines bulkInput in
      if length lines = 0 then prev else newItems rnd lines @ prev)"

text \<open>\<open>removeItem\<close> (lines 61-63) and \<open>toggleItem\<close> (lines 65-67).\<close>

definition removeItem :: "jsstring \<Rightarrow> Item list \<Rightarrow> Item list" where
  "removeItem i prev = filter (\<lambda>x. id' x \<noteq> JStr i) prev"

definition toggleItem :: "jsstring \<Rightarrow> Item list \<Rightarrow> Item list" where
  "toggleItem i prev =
     map (\<lambda>x. if id' x = JStr i then x\<lparr>completed := \<not> completed x\<rparr> else x) prev"

text \<open>
  \<open>saveEdit\<close> (lines 74-84) reads the state variables \<open>editingId\<close> (a string or \<open>null\<close>)
  and \<open>editingText\<close>; \<open>!editingId\<close> holds for \<open>null\<close> and for the empty string.
\<close>

definition saveEdit :: "jsstring option \<Rightarrow> jsstring \<Rightarrow> Item list \<Rightarrow> Item list" where
  "saveEdit editingId editingText prev =
     (case editingId of
        None \<Rightarrow> prev
      | Some eid \<Rightarrow>
          if eid = [] then prev
          else let trimmed = trim editingText in
            if trimmed = [] then removeItem eid prev
            else map (\<lambda>x. if id' x = JStr eid then x\<lparr>text := trimmed\<rparr> else x) prev)"

text \<open>\<open>clearCompleted\<close> (lines 91-93).\<close>

definition clearCompleted :: "Item list \<Rightarrow> Item list" where
  "clearCompleted prev = filter (\<lambda>x. \<not> completed x) prev"

text \<open>
  \<open>reorder\<close> (lines 95-102). \<open>splice_start\<close> is the start position \<open>Array.prototype.splice\<close>
  computes from an integral index: a negative index counts from the end, and the result is
  clamped to the array. When \<open>fromIndex\<close> is past the end nothing is removed, \<open>moved\<close> is
  \<open>undefined\<close>, and \<open>undefined\<close> is what the second splice inserts: the result is a list of
  slots, \<open>None\<close> being \<open>undefined\<close>.
\<close>

definition splice_start :: "int \<Rightarrow> nat \<Rightarrow> nat" where
  "splice_start rel len = (if rel < 0 then nat (max (int len + rel) 0) else min (nat rel) len)"

definition reorder :: "int \<Rightarrow> int \<Rightarrow> Item list \<Rightarrow> Item option list" where
  "reorder fromIndex toIndex prev =
     (let copy = map Some prev;
          s = splice_start fromIndex (length copy);
          removed = take 1 (drop s copy);
          copy1 = take s copy @ drop (s + length removed) copy;
          moved = (case removed of [] \<Rightarrow> None | m # ms \<Rightarrow> m);
          t = splice_start toIndex (length copy1)
      in take t copy1 @ [moved] @ drop t copy1)"

text \<open>
  \<open>exportJSON\<close> (lines 104-115): the downloaded text is \<open>JSON.stringify(items, null, 2)\<close>;
  every item object has the properties \<open>id\<close>, \<open>text\<close>, \<open>completed\<close>, in this order.
\<close>

definition item_value :: "Item \<Rightarrow> json" where
  "item_value x =
     JObj [(key_id, id' x), (key_text, JStr (text x)), (key_completed, JBool (completed x))]"

definition exportJSON :: "Item list \<Rightarrow> document" where
  "exportJSON items = JSON_stringify (JArr (map item_value items))"

text \<open>
  \<open>importJSON\<close> (lines 117-136). \<open>normalized\<close> is the \<open>filter\<close> and the \<open>map\<close> of lines
  124-126 in one pass: the filter has no effect of its own, so the calls of
  \<open>cryptoRandomId\<close> happen in the same order, one for each kept entry whose \<open>id\<close> is
  falsy. The result is the new list and the alert shown, if any.
\<close>

datatype alert = InvalidFile | ReadError

definition new_completed :: "json \<Rightarrow> bool" where
  "new_completed x = (case get_field x key_completed of None \<Rightarrow> False | Some c \<Rightarrow> ToBoolean c)"

definition usable_id :: "json \<Rightarrow> json option" where
  "usable_id x =
     (case get_field x key_id of
        None \<Rightarrow> None
      | Some v \<Rightarrow> if ToBoolean v then Some v else None)"

fun normalized :: "entropy stream \<Rightarrow> json list \<Rightarrow> Item list" where
  "normalized rnd [] = []"
| "normalized rnd (x # xs) =
     (if ToBoolean x then
        (case get_field x key_text of
           Some (JStr s) \<Rightarrow>
             (case usable_id x of
                Some v \<Rightarrow> \<lparr>id' = v, text = s, completed = new_completed x\<rparr> # normalized rnd xs
              | None \<Rightarrow>
                  \<lparr>id' = JStr (cryptoRandomId (shd rnd)), text = s, completed = new_completed x\<rparr>
                    # normalized (stl rnd) xs)
         | _ \<Rightarrow> normalized rnd xs)
      else normalized rnd xs)"

definition importJSON ::
    "entropy stream \<Rightarrow> document option \<Rightarrow> Item list \<Rightarrow> Item list \<times> alert option" where
  "importJSON rnd file prev =
     (case file of
        None \<Rightarrow> (prev, None)
      | Some SyntaxError \<Rightarrow> (prev, Some ReadError)
      | Some (Parsed (JArr xs)) \<Rightarrow> (normalized rnd xs, None)
      | Some (Parsed v) \<Rightarrow> (prev, Some InvalidFile))"

text \<open>
  The initial state (lines 12-19): \<open>localStorage.getItem\<close> gives \<open>null\<close> or the stored
  text. The empty text is falsy, and it is a SyntaxError as a document: both give \<open>[]\<close>.
  Whatever else parses is returned as it is.
\<close>

definition initialItems :: "document option \<Rightarrow> json" where
  "initialItems raw =
     (case raw of
        None \<Rightarrow> JArr []
      | Some SyntaxError \<Rightarrow> JArr []
      | Some (Parsed v) \<Rightarrow> v)"

text \<open>\<open>Array.isArray\<close> on a parsed value.\<close>

fun isArray :: "json \<Rightarrow> bool" where
  "isArray (JArr xs) = True"
| "isArray v = False"

text \<open>The invariant of the data model on texts: no item has an empty text.\<close>

definition texts_nonempty :: "Item list \<Rightarrow> bool" where
  "texts_nonempty s = (\<forall>x\<in>set s. text x \<noteq> [])"

section \<open>Reachable lists\<close>

text \<open>
  \<open>keeps\<close> is the predicate of the \<open>filter\<close> in line 125. Of the entries an imported
  array keeps, \<open>imported_ids\<close> are the ids taken over from the file and \<open>missing_ids\<close>
  counts the entries that get a generated id; \<open>generated rnd n\<close> are the first \<open>n\<close> ids
  that \<open>cryptoRandomId\<close> returns in one operation.
\<close>

definition keeps :: "json \<Rightarrow> bool" where
  "keeps x =
     (ToBoolean x \<and> (case get_field x key_text of Some (JStr s) \<Rightarrow> True | _ \<Rightarrow> False))"

definition generated :: "entropy stream \<Rightarrow> nat \<Rightarrow> json list" where
  "generated rnd n = map (\<lambda>e. JStr (cryptoRandomId e)) (stake n rnd)"

definition imported_ids :: "json list \<Rightarrow> json list" where
  "imported_ids xs = List.map_filter usable_id (filter keeps xs)"

definition missing_ids :: "json list \<Rightarrow> nat" where
  "missing_ids xs = length (filter (\<lambda>x. usable_id x = None) (filter keeps xs))"

text \<open>
  The lists reachable from the empty list by the operations of the component, under the
  conditions that the code itself does not check: the ids generated in a step are new
  (pairwise distinct, and not in the list they are added to), the ids of an imported array
  are pairwise distinct, and \<open>reorder\<close> leaves no \<open>undefined\<close> slot, which is the case
  exactly when \<open>fromIndex\<close> denotes a position of the list.
\<close>

inductive reachable :: "Item list \<Rightarrow> bool" where
  initial: "reachable []"
| add: "reachable s \<Longrightarrow> distinct (generated rnd 1 @ map id' s) \<Longrightarrow>
      reachable (addItem rnd input s)"
| addBulk: "reachable s \<Longrightarrow>
      distinct (generated rnd (length (bulk_lines bulkInput)) @ map id' s) \<Longrightarrow>
      reachable (addBulkItems rnd bulkInput s)"
| remove: "reachable s \<Longrightarrow> reachable (removeItem i s)"
| toggle: "reachable s \<Longrightarrow> reachable (toggleItem i s)"
| edit: "reachable s \<Longrightarrow> reachable (saveEdit editingId editingText s)"
| clear: "reachable s \<Longrightarrow> reachable (clearCompleted s)"
| reorder: "reachable s \<Longrightarrow> reorder fromIndex toIndex s = map Some s' \<Longrightarrow> reachable s'"
| import: "reachable s \<Longrightarrow>
      (\<forall>xs. file = Some (Parsed (JArr xs)) \<longrightarrow>
         distinct (imported_ids xs @ generated rnd (missing_ids xs))) \<Longrightarrow>
      reachable (fst (importJSON rnd file s))"

section \<open>Evaluating the string functions\<close>

lemma trim_blank: "trim (lit ''   '') = []"
  by (simp add: trim_def lit_def is_white_space_def)

lemma trim_milk: "trim (lit '' Buy milk '') = lit ''Buy milk''"
  by (simp add: trim_def lit_def is_white_space_def)

lemma bulk_lines_two: "bulk_lines (lit ''a\<newline>  \<newline> b '') = [lit ''a'', lit ''b'']"
  by (simp add: bulk_lines_def lit_def trim_def is_white_space_def)

lemma bulk_lines_blank: "bulk_lines (lit ''  \<newline> '') = []"
  by (simp add: bulk_lines_def lit_def trim_def is_white_space_def)

lemma keys_distinct [simp]:
  "key_id \<noteq> key_text" "key_text \<noteq> key_id" "key_id \<noteq> key_completed"
  "key_completed \<noteq> key_id" "key_text \<noteq> key_completed" "key_completed \<noteq> key_text"
  by (simp_all add: key_id_def key_text_def key_completed_def lit_def)

section \<open>Adding items\<close>

text \<open>
  C5, as the code has it. The id of a new item is whatever \<open>cryptoRandomId\<close> returns;
  no operation compares it with the ids of the list. For every input text \<open>t\<close>: if the
  trimmed \<open>t\<close> is empty, \<open>addItem\<close> leaves the list unchanged; otherwise the list grows
  by exactly one item, the new item is the first element, it has the trimmed text,
  \<open>completed = false\<close> and the id generated by this call of \<open>cryptoRandomId\<close>, and the
  items that were there follow it unchanged and in their order. The id of the new item
  differs from the ids of all the other items provided that the generated id is not the
  id of an item of the list.
\<close>

theorem addItem_spec:
  "(trim t = [] \<longrightarrow> addItem rnd t items = items) \<and>
   (trim t \<noteq> [] \<longrightarrow>
      length (addItem rnd t items) = length items + 1 \<and>
      hd (addItem rnd t items) =
        \<lparr>id' = JStr (cryptoRandomId (shd rnd)), text = trim t, completed = False\<rparr> \<and>
      tl (addItem rnd t items) = items \<and>
      (JStr (cryptoRandomId (shd rnd)) \<notin> set (map id' items) \<longrightarrow>
         id' (hd (addItem rnd t items)) \<notin> set (map id' (tl (addItem rnd t items)))))"
  by (simp add: addItem_def Let_def)

theorem addItem_spec_witness:
  "trim (lit ''   '') = [] \<and>
   addItem (sconst (RandomUUID (lit ''u2''))) (lit ''   '')
     [\<lparr>id' = JStr (lit ''u1''), text = lit ''a'', completed = True\<rparr>]
   = [\<lparr>id' = JStr (lit ''u1''), text = lit ''a'', completed = True\<rparr>] \<and>
   trim (lit '' Buy milk '') \<noteq> [] \<and>
   JStr (cryptoRandomId (shd (sconst (RandomUUID (lit ''u2'')))))
     \<notin> set (map id' [\<lparr>id' = JStr (lit ''u1''), text = lit ''a'', completed = True\<rparr>]) \<and>
   addItem (sconst (RandomUUID (lit ''u2''))) (lit '' Buy milk '')
     [\<lparr>id' = JStr (lit ''u1''), text = lit ''a'', completed = True\<rparr>]
   = [\<lparr>id' = JStr (lit ''u2''), text = lit ''Buy milk'', completed = False\<rparr>,
      \<lparr>id' = JStr (lit ''u1''), text = lit ''a'', completed = True\<rparr>] \<and>
   id' (hd (addItem (sconst (RandomUUID (lit ''u2''))) (lit '' Buy milk '')
              [\<lparr>id' = JStr (lit ''u1''), text = lit ''a'', completed = True\<rparr>]))
     \<notin> set (map id' [\<lparr>id' = JStr (lit ''u1''), text = lit ''a'', completed = True\<rparr>])"
  using addItem_spec [of "lit ''   ''" "sconst (RandomUUID (lit ''u2''))"
      "[\<lparr>id' = JStr (lit ''u1''), text = lit ''a'', completed = True\<rparr>]"]
    addItem_spec [of "lit '' Buy milk ''" "sconst (RandomUUID (lit ''u2''))"
      "[\<lparr>id' = JStr (lit ''u1''), text = lit ''a'', completed = True\<rparr>]"]
  by (simp add: trim_blank trim_milk addItem_def) (simp add: lit_def)

text \<open>
  C5 as stated fails when the generator repeats itself: \<open>Math.random().toString(36)\<close>
  gives \<open>0.4fzyo82mvyr\<close> in two successive calls of \<open>addItem\<close>, and the second item
  gets the id of the first, which is not a fresh id.
\<close>

theorem addItem_repeated_id:
  "addItem (sconst (MathRandom (lit ''0.4fzyo82mvyr''))) (lit ''b'')
     (addItem (sconst (MathRandom (lit ''0.4fzyo82mvyr''))) (lit ''a'') [])
   = [\<lparr>id' = JStr (lit ''4fzyo82''), text = lit ''b'', completed = False\<rparr>,
      \<lparr>id' = JStr (lit ''4fzyo82''), text = lit ''a'', completed = False\<rparr>] \<and>
   id' (hd (addItem (sconst (MathRandom (lit ''0.4fzyo82mvyr''))) (lit ''b'')
              (addItem (sconst (MathRandom (lit ''0.4fzyo82mvyr''))) (lit ''a'') [])))
     \<in> set (map id' (addItem (sconst (MathRandom (lit ''0.4fzyo82mvyr''))) (lit ''a'') []))"
  by (simp add: addItem_def trim_def is_white_space_def lit_def)

lemma length_newItems: "length (newItems rnd ls) = length ls"
  by (induction ls arbitrary: rnd) simp_all

lemma text_newItems: "map text (newItems rnd ls) = ls"
  by (induction ls arbitrary: rnd) simp_all

lemma nth_newItems:
  "j < length ls \<Longrightarrow>
   newItems rnd ls ! j =
     \<lparr>id' = JStr (cryptoRandomId (rnd !! j)), text = ls ! j, completed = False\<rparr>"
proof (induction ls arbitrary: rnd j)
  case Nil
  then show ?case by simp
next
  case (Cons l ls)
  then show ?case by (cases j) simp_all
qed

lemma ids_newItems: "map id' (newItems rnd ls) = generated rnd (length ls)"
  by (induction ls arbitrary: rnd) (simp_all add: generated_def)

text \<open>
  C6, as the code has it. The ids of the new items are whatever the calls of
  \<open>cryptoRandomId\<close> return; no operation compares them. Let \<open>bulk_lines b\<close> be the lines
  of the input \<open>b\<close> after trimming and dropping the empty ones, \<open>k\<close> of them. If \<open>k = 0\<close>,
  \<open>addBulkItems\<close> leaves the list unchanged. Otherwise the list grows by exactly \<open>k\<close>; its
  first \<open>k\<close> items carry the lines as their texts, in the order of the lines; each of them
  has \<open>completed = false\<close> and the id generated for it by its own call of
  \<open>cryptoRandomId\<close>; and the items that were there follow, unchanged and in their order.
  The ids of the new items differ from each other and from the ids of the items that were
  there provided that the \<open>k\<close> generated ids are pairwise distinct and none of them is the
  id of an item of the list.
\<close>

theorem addBulkItems_spec:
  "(bulk_lines b = [] \<longrightarrow> addBulkItems rnd b items = items) \<and>
   (bulk_lines b \<noteq> [] \<longrightarrow>
      length (addBulkItems rnd b items) = length items + length (bulk_lines b) \<and>
      map text (take (length (bulk_lines b)) (addBulkItems rnd b items)) = bulk_lines b \<and>
      (\<forall>j < length (bulk_lines b).
         completed (addBulkItems rnd b items ! j) = False \<and>
         id' (addBulkItems rnd b items ! j) = JStr (cryptoRandomId (rnd !! j))) \<and>
      drop (length (bulk_lines b)) (addBulkItems rnd b items) = items \<and>
      (distinct (generated rnd (length (bulk_lines b)) @ map id' items) \<longrightarrow>
         distinct (map id' (take (length (bulk_lines b)) (addBulkItems rnd b items))) \<and>
         (\<forall>j < length (bulk_lines b).
            id' (addBulkItems rnd b items ! j)
              \<notin> set (map id' (drop (length (bulk_lines b)) (addBulkItems rnd b items))))))"
proof -
  have new: "id' (newItems rnd (bulk_lines b) ! j) \<in> set (generated rnd (length (bulk_lines b)))"
    if "j < length (bulk_lines b)" for j
  proof -
    have "id' (newItems rnd (bulk_lines b) ! j) = generated rnd (length (bulk_lines b)) ! j"
      using that by (simp add: ids_newItems [symmetric] length_newItems)
    moreover have "generated rnd (length (bulk_lines b)) ! j
        \<in> set (generated rnd (length (bulk_lines b)))"
      using that by (intro nth_mem) (simp add: generated_def)
    ultimately show ?thesis by simp
  qed
  show ?thesis
    using new
    by (auto simp: addBulkItems_def Let_def length_newItems text_newItems nth_append
        nth_newItems ids_newItems)
qed

theorem addBulkItems_spec_witness:
  "bulk_lines (lit ''  \<newline> '') = [] \<and>
   addBulkItems (RandomUUID (lit ''u1'') ## sconst (RandomUUID (lit ''u2''))) (lit ''  \<newline> '')
     [\<lparr>id' = JStr (lit ''u3''), text = lit ''c'', completed = True\<rparr>]
   = [\<lparr>id' = JStr (lit ''u3''), text = lit ''c'', completed = True\<rparr>] \<and>
   bulk_lines (lit ''a\<newline>  \<newline> b '') \<noteq> [] \<and>
   distinct (generated (RandomUUID (lit ''u1'') ## sconst (RandomUUID (lit ''u2'')))
               (length (bulk_lines (lit ''a\<newline>  \<newline> b '')))
             @ map id' [\<lparr>id' = JStr (lit ''u3''), text = lit ''c'', completed = True\<rparr>]) \<and>
   addBulkItems (RandomUUID (lit ''u1'') ## sconst (RandomUUID (lit ''u2'')))
     (lit ''a\<newline>  \<newline> b '')
     [\<lparr>id' = JStr (lit ''u3''), text = lit ''c'', completed = True\<rparr>]
   = [\<lparr>id' = JStr (lit ''u1''), text = lit ''a'', completed = False\<rparr>,
      \<lparr>id' = JStr (lit ''u2''), text = lit ''b'', completed = False\<rparr>,
      \<lparr>id' = JStr (lit ''u3''), text = lit ''c'', completed = True\<rparr>] \<and>
   distinct (map id' (take 2
     (addBulkItems (RandomUUID (lit ''u1'') ## sconst (RandomUUID (lit ''u2'')))
        (lit ''a\<newline>  \<newline> b '')
        [\<lparr>id' = JStr (lit ''u3''), text = lit ''c'', completed = True\<rparr>])))"
  using addBulkItems_spec [of "lit ''  \<newline> ''"
      "RandomUUID (lit ''u1'') ## sconst (RandomUUID (lit ''u2''))"
      "[\<lparr>id' = JStr (lit ''u3''), text = lit ''c'', completed = True\<rparr>]"]
    addBulkItems_spec [of "lit ''a\<newline>  \<newline> b ''"
      "RandomUUID (lit ''u1'') ## sconst (RandomUUID (lit ''u2''))"
      "[\<lparr>id' = JStr (lit ''u3''), text = lit ''c'', completed = True\<rparr>]"]
  by (simp add: bulk_lines_blank bulk_lines_two addBulkItems_def generated_def)
    (simp add: lit_def)

text \<open>
  C6 as stated fails when the generator repeats itself: both calls of \<open>cryptoRandomId\<close>
  return the same id, and the two new items share it.
\<close>

theorem addBulkItems_repeated_id:
  "addBulkItems (sconst (RandomUUID (lit ''u1''))) (lit ''a\<newline>  \<newline> b '') []
   = [\<lparr>id' = JStr (lit ''u1''), text = lit ''a'', completed = False\<rparr>,
      \<lparr>id' = JStr (lit ''u1''), text = lit ''b'', completed = False\<rparr>] \<and>
   id' (addBulkItems (sconst (RandomUUID (lit ''u1''))) (lit ''a\<newline>  \<newline> b '') [] ! 0)
   = id' (addBulkItems (sconst (RandomUUID (lit ''u1''))) (lit ''a\<newline>  \<newline> b '') [] ! 1)"
  by (simp add: addBulkItems_def bulk_lines_two)

section \<open>Toggling\<close>

text \<open>
  C7. For every list and every id, toggling the same id twice in succession gives back
  the original list.
\<close>

theorem toggleItem_involution: "toggleItem i (toggleItem i items) = items"
  by (induction items) (simp_all add: toggleItem_def)

text \<open>
  C10. For every list and every id, \<open>toggleItem\<close> changes at most the completed flag of
  the items whose id matches: the length of the list, the ids and the texts, position by
  position, and every item whose id does not match stay as they were, and an item whose
  id matches differs from the original in its completed flag only.
\<close>

theorem toggleItem_frame:
  "length (toggleItem i items) = length items \<and>
   map id' (toggleItem i items) = map id' items \<and>
   map text (toggleItem i items) = map text items \<and>
   (\<forall>k < length items.
      (id' (items ! k) \<noteq> JStr i \<longrightarrow> toggleItem i items ! k = items ! k) \<and>
      (id' (items ! k) = JStr i \<longrightarrow>
         toggleItem i items ! k = (items ! k)\<lparr>completed := \<not> completed (items ! k)\<rparr>))"
  by (simp add: toggleItem_def)

theorem toggleItem_frame_witness:
  "(0::nat) < length [\<lparr>id' = JStr (lit ''u1''), text = lit ''a'', completed = False\<rparr>,
                      \<lparr>id' = JStr (lit ''u2''), text = lit ''b'', completed = True\<rparr>] \<and>
   id' ([\<lparr>id' = JStr (lit ''u1''), text = lit ''a'', completed = False\<rparr>,
         \<lparr>id' = JStr (lit ''u2''), text = lit ''b'', completed = True\<rparr>] ! 0) = JStr (lit ''u1'') \<and>
   id' ([\<lparr>id' = JStr (lit ''u1''), text = lit ''a'', completed = False\<rparr>,
         \<lparr>id' = JStr (lit ''u2''), text = lit ''b'', completed = True\<rparr>] ! 1) \<noteq> JStr (lit ''u1'') \<and>
   toggleItem (lit ''u1'')
     [\<lparr>id' = JStr (lit ''u1''), text = lit ''a'', completed = False\<rparr>,
      \<lparr>id' = JStr (lit ''u2''), text = lit ''b'', completed = True\<rparr>]
   = [\<lparr>id' = JStr (lit ''u1''), text = lit ''a'', completed = True\<rparr>,
      \<lparr>id' = JStr (lit ''u2''), text = lit ''b'', completed = True\<rparr>]"
  using toggleItem_frame [of "lit ''u1''"
      "[\<lparr>id' = JStr (lit ''u1''), text = lit ''a'', completed = False\<rparr>,
        \<lparr>id' = JStr (lit ''u2''), text = lit ''b'', completed = True\<rparr>]"]
  by (simp add: toggleItem_def lit_def)

section \<open>Editing\<close>

text \<open>
  C8, as the code has it. \<open>saveEdit\<close> returns at once when \<open>editingId\<close> is falsy, which
  the empty string is. For every list and every non-empty id: when the trimmed new text is
  empty, the items with this id are removed and the others stay, in their order; when it
  is not empty, the list keeps its length, the items with this id get the trimmed new text
  in place, the others are unchanged, and the same edit applied a second time changes
  nothing.
\<close>

theorem saveEdit_spec:
  assumes "eid \<noteq> []"
  shows "(trim t = [] \<longrightarrow>
            saveEdit (Some eid) t items = filter (\<lambda>x. id' x \<noteq> JStr eid) items \<and>
            (\<forall>x\<in>set (saveEdit (Some eid) t items). id' x \<noteq> JStr eid)) \<and>
         (trim t \<noteq> [] \<longrightarrow>
            length (saveEdit (Some eid) t items) = length items \<and>
            (\<forall>k < length items.
               (id' (items ! k) = JStr eid \<longrightarrow>
                  saveEdit (Some eid) t items ! k = (items ! k)\<lparr>text := trim t\<rparr>) \<and>
               (id' (items ! k) \<noteq> JStr eid \<longrightarrow>
                  saveEdit (Some eid) t items ! k = items ! k)) \<and>
            saveEdit (Some eid) t (saveEdit (Some eid) t items) = saveEdit (Some eid) t items)"
  using assms by (simp add: saveEdit_def removeItem_def Let_def)

theorem saveEdit_spec_witness:
  "lit ''u1'' \<noteq> [] \<and> trim (lit ''   '') = [] \<and>
   saveEdit (Some (lit ''u1'')) (lit ''   '')
     [\<lparr>id' = JStr (lit ''u1''), text = lit ''a'', completed = False\<rparr>,
      \<lparr>id' = JStr (lit ''u2''), text = lit ''b'', completed = True\<rparr>]
   = [\<lparr>id' = JStr (lit ''u2''), text = lit ''b'', completed = True\<rparr>] \<and>
   trim (lit '' Buy milk '') \<noteq> [] \<and>
   saveEdit (Some (lit ''u1'')) (lit '' Buy milk '')
     [\<lparr>id' = JStr (lit ''u1''), text = lit ''a'', completed = False\<rparr>,
      \<lparr>id' = JStr (lit ''u2''), text = lit ''b'', completed = True\<rparr>]
   = [\<lparr>id' = JStr (lit ''u1''), text = lit ''Buy milk'', completed = False\<rparr>,
      \<lparr>id' = JStr (lit ''u2''), text = lit ''b'', completed = True\<rparr>]"
  using saveEdit_spec [of "lit ''u1''" "lit ''   ''"
      "[\<lparr>id' = JStr (lit ''u1''), text = lit ''a'', completed = False\<rparr>,
        \<lparr>id' = JStr (lit ''u2''), text = lit ''b'', completed = True\<rparr>]"]
    saveEdit_spec [of "lit ''u1''" "lit '' Buy milk ''"
      "[\<lparr>id' = JStr (lit ''u1''), text = lit ''a'', completed = False\<rparr>,
        \<lparr>id' = JStr (lit ''u2''), text = lit ''b'', completed = True\<rparr>]"]
  by (simp add: saveEdit_def removeItem_def trim_blank trim_milk) (simp add: lit_def)

text \<open>
  C8 as stated fails for the empty id: the list holds an item whose id is the empty
  string, the new text is empty, and the item is still there after \<open>saveEdit\<close>.
\<close>

theorem saveEdit_counterexample:
  "\<lparr>id' = JStr [], text = lit ''a'', completed = False\<rparr>
     \<in> set (saveEdit (Some []) [] [\<lparr>id' = JStr [], text = lit ''a'', completed = False\<rparr>])"
  by (simp add: saveEdit_def)

section \<open>Import and export\<close>

text \<open>\<open>normalized\<close> looks at the entries that the filter of line 125 keeps, and at no other.\<close>

lemma normalized_filter: "normalized rnd (filter keeps xs) = normalized rnd xs"
proof (induction xs arbitrary: rnd)
  case Nil
  then show ?case by simp
next
  case (Cons x xs)
  show ?case
  proof (cases "keeps x")
    case True
    then obtain t where "ToBoolean x" "get_field x key_text = Some (JStr t)"
      by (auto simp: keeps_def split: option.splits json.splits)
    with True Cons show ?thesis by (cases "usable_id x") simp_all
  next
    case False
    then have "normalized rnd (x # xs) = normalized rnd xs"
      by (auto simp: keeps_def split: option.splits json.splits)
    with False Cons show ?thesis by simp
  qed
qed

lemma length_normalized_kept:
  "\<forall>x\<in>set ys. keeps x \<Longrightarrow> length (normalized rnd ys) = length ys"
proof (induction ys arbitrary: rnd)
  case Nil
  then show ?case by simp
next
  case (Cons y ys)
  then obtain t where "ToBoolean y" "get_field y key_text = Some (JStr t)"
    by (auto simp: keeps_def split: option.splits json.splits)
  with Cons show ?case by (cases "usable_id y") simp_all
qed

lemma nth_normalized_kept:
  "\<forall>x\<in>set ys. keeps x \<Longrightarrow> k < length ys \<Longrightarrow>
   get_field (ys ! k) key_text = Some (JStr (text (normalized rnd ys ! k))) \<and>
   completed (normalized rnd ys ! k) = new_completed (ys ! k) \<and>
   id' (normalized rnd ys ! k) =
     (case usable_id (ys ! k) of
        Some v \<Rightarrow> v
      | None \<Rightarrow>
          JStr (cryptoRandomId
            (rnd !! length (filter (\<lambda>x. usable_id x = None) (take k ys)))))"
proof (induction ys arbitrary: rnd k)
  case Nil
  then show ?case by simp
next
  case (Cons y ys)
  then obtain t where t: "ToBoolean y" "get_field y key_text = Some (JStr t)"
    by (auto simp: keeps_def split: option.splits json.splits)
  show ?case
  proof (cases k)
    case 0
    with t show ?thesis by (cases "usable_id y") simp_all
  next
    case (Suc j)
    with Cons.prems have j: "\<forall>x\<in>set ys. keeps x" "j < length ys" by simp_all
    show ?thesis
    proof (cases "usable_id y")
      case None
      with t Cons.IH [OF j, of "stl rnd"] show ?thesis
        unfolding Suc by (simp split: option.splits)
    next
      case (Some v)
      with t Cons.IH [OF j, of rnd] show ?thesis
        unfolding Suc by (simp split: option.splits)
    qed
  qed
qed

text \<open>
  C2. A file that \<open>JSON.parse\<close> rejects, and a file whose parsed value is not an array,
  leave the list as it was and raise an alert. A file that parses to an array raises no
  alert and replaces the whole list, whatever it was, by the normalized entries of the
  array: the new list has one item for each entry that is truthy and has a string under
  \<open>text\<close> (\<open>kept\<close>), in the order of the entries, and the item for the \<open>k\<close>-th such
  entry has the entry's \<open>text\<close>, the entry's \<open>completed\<close> coerced to a boolean
  (\<open>false\<close> when absent), and the entry's \<open>id\<close> when it is truthy; when it is not, the
  id is the one \<open>cryptoRandomId\<close> generates next, after one call for each earlier kept
  entry without a truthy \<open>id\<close> (\<open>drawn k\<close> of them).
\<close>

theorem importJSON_spec:
  fixes rnd :: "entropy stream" and xs :: "json list" and prev :: "Item list" and v :: json
  defines "kept \<equiv> filter keeps xs"
    and "imported \<equiv> fst (importJSON rnd (Some (Parsed (JArr xs))) prev)"
    and "drawn \<equiv> \<lambda>k. length (filter
           (\<lambda>x. case get_field x key_id of None \<Rightarrow> True | Some i \<Rightarrow> \<not> ToBoolean i)
           (take k (filter keeps xs)))"
  shows
  "importJSON rnd (Some SyntaxError) prev = (prev, Some ReadError) \<and>
   (\<not> isArray v \<longrightarrow> importJSON rnd (Some (Parsed v)) prev = (prev, Some InvalidFile)) \<and>
   snd (importJSON rnd (Some (Parsed (JArr xs))) prev) = None \<and>
   length imported = length kept \<and>
   (\<forall>k < length kept.
      get_field (kept ! k) key_text = Some (JStr (text (imported ! k))) \<and>
      completed (imported ! k) =
        (case get_field (kept ! k) key_completed of None \<Rightarrow> False | Some c \<Rightarrow> ToBoolean c) \<and>
      id' (imported ! k) =
        (case get_field (kept ! k) key_id of
           None \<Rightarrow> JStr (cryptoRandomId (rnd !! drawn k))
         | Some i \<Rightarrow> if ToBoolean i then i else JStr (cryptoRandomId (rnd !! drawn k))))"
proof -
  have all: "\<forall>x\<in>set kept. keeps x" by (simp add: kept_def)
  have imp: "imported = normalized rnd kept"
    by (simp add: imported_def kept_def importJSON_def normalized_filter)
  have count: "drawn k = length (filter (\<lambda>x. usable_id x = None) (take k kept))" for k
    unfolding drawn_def kept_def
    by (rule arg_cong [where f = length], rule filter_cong)
      (auto simp: usable_id_def split: option.splits)
  have pointwise:
    "get_field (kept ! k) key_text = Some (JStr (text (imported ! k))) \<and>
     completed (imported ! k) =
       (case get_field (kept ! k) key_completed of None \<Rightarrow> False | Some c \<Rightarrow> ToBoolean c) \<and>
     id' (imported ! k) =
       (case get_field (kept ! k) key_id of
          None \<Rightarrow> JStr (cryptoRandomId (rnd !! drawn k))
        | Some i \<Rightarrow> if ToBoolean i then i else JStr (cryptoRandomId (rnd !! drawn k)))"
    if "k < length kept" for k
    using nth_normalized_kept [OF all that, of rnd]
    by (simp add: imp count new_completed_def usable_id_def split: option.splits)
  have "importJSON rnd (Some SyntaxError) prev = (prev, Some ReadError)"
    by (simp add: importJSON_def)
  moreover have
    "\<not> isArray v \<longrightarrow> importJSON rnd (Some (Parsed v)) prev = (prev, Some InvalidFile)"
    by (cases v) (simp_all add: importJSON_def)
  moreover have "snd (importJSON rnd (Some (Parsed (JArr xs))) prev) = None"
    by (simp add: importJSON_def)
  moreover have "length imported = length kept"
    using length_normalized_kept [OF all] by (simp add: imp)
  ultimately show ?thesis using pointwise by blast
qed

text \<open>
  The witness imports first an object, then the array
  \<open>[{"id": "a", "text": "x", "completed": true}, null, {"text": "y"}, {"text": 0}]\<close>
  into a list of one item.
\<close>

theorem importJSON_spec_witness:
  "\<not> isArray (JObj [(key_text, JStr (lit ''a''))]) \<and>
   importJSON (sconst (RandomUUID (lit ''u1''))) (Some (Parsed (JObj [(key_text, JStr (lit ''a''))])))
     [\<lparr>id' = JStr (lit ''u2''), text = lit ''b'', completed = True\<rparr>]
   = ([\<lparr>id' = JStr (lit ''u2''), text = lit ''b'', completed = True\<rparr>], Some InvalidFile) \<and>
   filter keeps
     [JObj [(key_id, JStr (lit ''a'')), (key_text, JStr (lit ''x'')), (key_completed, JBool True)],
      JNull, JObj [(key_text, JStr (lit ''y''))], JObj [(key_text, JNum 0)]]
   = [JObj [(key_id, JStr (lit ''a'')), (key_text, JStr (lit ''x'')), (key_completed, JBool True)],
      JObj [(key_text, JStr (lit ''y''))]] \<and>
   importJSON (sconst (RandomUUID (lit ''u1'')))
     (Some (Parsed (JArr
       [JObj [(key_id, JStr (lit ''a'')), (key_text, JStr (lit ''x'')), (key_completed, JBool True)],
        JNull, JObj [(key_text, JStr (lit ''y''))], JObj [(key_text, JNum 0)]])))
     [\<lparr>id' = JStr (lit ''u2''), text = lit ''b'', completed = True\<rparr>]
   = ([\<lparr>id' = JStr (lit ''a''), text = lit ''x'', completed = True\<rparr>,
       \<lparr>id' = JStr (lit ''u1''), text = lit ''y'', completed = False\<rparr>], None)"
  using importJSON_spec [of "sconst (RandomUUID (lit ''u1''))"
      "[\<lparr>id' = JStr (lit ''u2''), text = lit ''b'', completed = True\<rparr>]"
      "JObj [(key_text, JStr (lit ''a''))]"
      "[JObj [(key_id, JStr (lit ''a'')), (key_text, JStr (lit ''x'')), (key_completed, JBool True)],
        JNull, JObj [(key_text, JStr (lit ''y''))], JObj [(key_text, JNum 0)]]"]
  by (simp add: importJSON_def keeps_def usable_id_def new_completed_def) (simp add: lit_def)

lemma item_value_fields:
  "get_field (item_value x) key_id = Some (id' x)"
  "get_field (item_value x) key_text = Some (JStr (text x))"
  "get_field (item_value x) key_completed = Some (JBool (completed x))"
  by (simp_all add: item_value_def)

lemma reparse_item_value: "id' x = JStr s \<Longrightarrow> reparse (item_value x) = item_value x"
  by (simp add: item_value_def)

lemma normalized_item_values:
  "\<forall>x\<in>set items. \<exists>s. id' x = JStr s \<and> s \<noteq> [] \<Longrightarrow>
   normalized rnd (map item_value items) = items"
proof (induction items)
  case Nil
  then show ?case by simp
next
  case (Cons x items)
  then obtain s where s: "id' x = JStr s" "s \<noteq> []" by auto
  have "ToBoolean (item_value x)" by (simp add: item_value_def)
  moreover have "usable_id (item_value x) = Some (id' x)"
    using s by (simp add: usable_id_def item_value_fields)
  moreover have "new_completed (item_value x) = completed x"
    by (simp add: new_completed_def item_value_fields)
  ultimately show ?case using Cons by (simp add: item_value_fields)
qed

text \<open>
  C1, as the code has it. \<open>importJSON\<close> takes an id over only when it is truthy, so an id
  that is the empty string counts as absent. For every list of items whose ids are
  non-empty strings, whatever their texts and flags, importing the exported document
  raises no alert and gives back the list itself: the same ids, texts and completed flags
  in the same order, no id being generated.
\<close>

theorem export_import_roundtrip:
  assumes "\<forall>x\<in>set items. \<exists>s. id' x = JStr s \<and> s \<noteq> []"
  shows "importJSON rnd (Some (exportJSON items)) prev = (items, None)"
proof -
  have same: "map reparse (map item_value items) = map item_value items"
    using assms by (auto simp: reparse_item_value)
  show ?thesis
    by (simp add: importJSON_def exportJSON_def JSON_stringify_def same
        normalized_item_values [OF assms] del: map_map)
qed

theorem export_import_roundtrip_witness:
  "(\<exists>s. id' \<lparr>id' = JStr (lit ''u1''), text = lit ''a'', completed = False\<rparr> = JStr s \<and> s \<noteq> []) \<and>
   (\<exists>s. id' \<lparr>id' = JStr (lit ''u2''), text = lit ''b'', completed = True\<rparr> = JStr s \<and> s \<noteq> []) \<and>
   importJSON (sconst (RandomUUID (lit ''u3'')))
     (Some (exportJSON [\<lparr>id' = JStr (lit ''u1''), text = lit ''a'', completed = False\<rparr>,
                        \<lparr>id' = JStr (lit ''u2''), text = lit ''b'', completed = True\<rparr>])) []
   = ([\<lparr>id' = JStr (lit ''u1''), text = lit ''a'', completed = False\<rparr>,
       \<lparr>id' = JStr (lit ''u2''), text = lit ''b'', completed = True\<rparr>], None)"
proof -
  have ids: "\<forall>x\<in>set [\<lparr>id' = JStr (lit ''u1''), text = lit ''a'', completed = False\<rparr>,
                      \<lparr>id' = JStr (lit ''u2''), text = lit ''b'', completed = True\<rparr>].
               \<exists>s. id' x = JStr s \<and> s \<noteq> []"
    by (simp add: lit_def)
  show ?thesis
    using ids export_import_roundtrip [OF ids, of "sconst (RandomUUID (lit ''u3''))" "[]"]
    by (simp add: lit_def)
qed

text \<open>
  C1 as stated fails for an id that is present and empty: the exported document of the
  one item below carries \<open>"id": ""\<close>, and the import gives the item a generated id.
\<close>

theorem export_import_counterexample:
  "fst (importJSON (sconst (RandomUUID (lit ''u1'')))
          (Some (exportJSON [\<lparr>id' = JStr [], text = lit ''a'', completed = False\<rparr>])) [])
   = [\<lparr>id' = JStr (lit ''u1''), text = lit ''a'', completed = False\<rparr>] \<and>
   [\<lparr>id' = JStr (lit ''u1''), text = lit ''a'', completed = False\<rparr>]
   \<noteq> [\<lparr>id' = JStr [], text = lit ''a'', completed = False\<rparr>]"
  by (simp add: importJSON_def exportJSON_def JSON_stringify_def item_value_def usable_id_def
      new_completed_def lit_def)

section \<open>The initial list\<close>

text \<open>
  C9 at the input where the code breaks it: the stored text \<open>{}\<close> parses, so it is
  returned as the initial value of \<open>items\<close>, and it is an object, not an array of items.
  A missing entry and a text that does not parse give the empty list.
\<close>

theorem initialItems_not_a_list:
  "initialItems (Some (Parsed (JObj []))) = JObj [] \<and>
   \<not> isArray (initialItems (Some (Parsed (JObj [])))) \<and>
   initialItems None = JArr [] \<and> initialItems (Some SyntaxError) = JArr []"
  by (simp add: initialItems_def)

section \<open>Distinct ids\<close>

lemma ids_toggleItem: "map id' (toggleItem i s) = map id' s"
  by (simp add: toggleItem_def)

lemma ids_edited: "map id' (map (\<lambda>x. if id' x = j then x\<lparr>text := t\<rparr> else x) s) = map id' s"
  by (induction s) simp_all

lemma distinct_saveEdit: "distinct (map id' s) \<Longrightarrow> distinct (map id' (saveEdit e t s))"
  by (cases e)
    (simp_all add: saveEdit_def removeItem_def Let_def distinct_map_filter ids_edited
      del: map_map)

text \<open>A reorder that leaves no \<open>undefined\<close> slot permutes the list.\<close>

lemma reorder_mset:
  assumes "reorder f t s = map Some s'"
  shows "mset s' = mset s"
proof -
  define n where "n = splice_start f (length s)"
  have n_le: "n \<le> length s" by (auto simp: n_def splice_start_def)
  show ?thesis
  proof (cases "n < length s")
    case False
    with n_le have "n = length s" by simp
    then have "None \<in> set (reorder f t s)"
      by (simp add: reorder_def Let_def n_def [symmetric])
    with assms show ?thesis by auto
  next
    case True
    define c where "c = take n s @ drop (Suc n) s"
    define k where "k = splice_start t (length c)"
    have removed: "take 1 (drop n (map Some s)) = [Some (s ! n)]"
      using True
      by (simp add: take_Suc_conv_app_nth drop_map [symmetric] Cons_nth_drop_Suc [symmetric])
    have "reorder f t s = map Some (take k c @ [s ! n] @ drop k c)"
      unfolding reorder_def Let_def n_def [symmetric] length_map removed
      by (simp add: c_def k_def take_map drop_map)
    with assms have "map Some s' = map Some (take k c @ [s ! n] @ drop k c)" by simp
    then have "s' = take k c @ [s ! n] @ drop k c"
      by (rule map_injective) simp
    moreover have "mset (take k c) + mset (drop k c) = mset c"
      by (metis append_take_drop_id mset_append)
    ultimately have "mset s' = mset c + {#s ! n#}" by simp
    also have "\<dots> = mset (take n s @ s ! n # drop (Suc n) s)" by (simp add: c_def)
    also have "\<dots> = mset s" using True by (simp add: id_take_nth_drop [symmetric])
    finally show ?thesis .
  qed
qed

text \<open>The ids of an imported list are the ids taken over and the ids generated.\<close>

lemma normalized_ids:
  "mset (map id' (normalized rnd xs)) =
   mset (imported_ids xs) + mset (generated rnd (missing_ids xs))"
proof (induction xs arbitrary: rnd)
  case Nil
  then show ?case
    by (simp add: imported_ids_def missing_ids_def generated_def)
next
  case (Cons x xs)
  show ?case
  proof (cases "keeps x")
    case False
    then have "normalized rnd (x # xs) = normalized rnd xs"
      by (auto simp: keeps_def split: option.splits json.splits)
    with False Cons show ?thesis by (simp add: imported_ids_def missing_ids_def)
  next
    case True
    then obtain s where s: "ToBoolean x" "get_field x key_text = Some (JStr s)"
      by (auto simp: keeps_def split: option.splits json.splits)
    show ?thesis
    proof (cases "usable_id x")
      case None
      with s True Cons [of "stl rnd"] show ?thesis
        by (simp add: imported_ids_def missing_ids_def generated_def)
    next
      case (Some v)
      with s True Cons [of rnd] show ?thesis
        by (simp add: imported_ids_def missing_ids_def)
    qed
  qed
qed

lemma distinct_normalized:
  assumes "distinct (imported_ids xs @ generated rnd (missing_ids xs))"
  shows "distinct (map id' (normalized rnd xs))"
proof -
  have "mset (map id' (normalized rnd xs)) =
        mset (imported_ids xs @ generated rnd (missing_ids xs))"
    by (simp only: normalized_ids mset_append)
  then show ?thesis using assms by (metis mset_eq_imp_distinct_iff)
qed

lemma distinct_importJSON:
  "distinct (map id' s) \<Longrightarrow>
   (\<forall>xs. file = Some (Parsed (JArr xs)) \<longrightarrow>
      distinct (imported_ids xs @ generated rnd (missing_ids xs))) \<Longrightarrow>
   distinct (map id' (fst (importJSON rnd file s)))"
  by (auto simp: importJSON_def distinct_normalized
      split: option.splits document.splits json.splits)

text \<open>
  C4, as the code has it. No operation compares ids: a new id is whatever
  \<open>cryptoRandomId\<close> returns, and \<open>importJSON\<close> takes the ids of the file as they are.
  In every list reachable from the empty list by adding, bulk adding, removing, toggling,
  editing, clearing the completed items, reordering from a position of the list and
  importing, the ids are pairwise distinct, provided that the ids generated in each step
  are distinct from each other and from the ids of the list they join, and that the ids
  of each imported array are pairwise distinct.
\<close>

theorem reachable_ids_distinct: "reachable s \<Longrightarrow> distinct (map id' s)"
proof (induction rule: reachable.induct)
  case initial
  then show ?case by simp
next
  case (add s rnd input)
  then show ?case by (simp add: addItem_def Let_def generated_def)
next
  case (addBulk s rnd bulkInput)
  then show ?case by (simp add: addBulkItems_def Let_def ids_newItems)
next
  case (remove s i)
  then show ?case by (simp add: removeItem_def distinct_map_filter)
next
  case (toggle s i)
  then show ?case by (simp add: ids_toggleItem)
next
  case (edit s editingId editingText)
  then show ?case by (simp add: distinct_saveEdit)
next
  case (clear s)
  then show ?case by (simp add: clearCompleted_def distinct_map_filter)
next
  case (reorder s fromIndex toIndex s')
  then have "mset (map id' s') = mset (map id' s)" by (simp add: reorder_mset)
  with reorder show ?case by (metis mset_eq_imp_distinct_iff)
next
  case (import s chosen rnd)
  then show ?case by (simp add: distinct_importJSON)
qed

theorem reachable_ids_distinct_witness:
  "reachable (addItem (sconst (RandomUUID (lit ''u2''))) (lit ''Walk dog'')
               (addItem (sconst (RandomUUID (lit ''u1''))) (lit ''Buy milk'') [])) \<and>
   distinct (map id' (addItem (sconst (RandomUUID (lit ''u2''))) (lit ''Walk dog'')
               (addItem (sconst (RandomUUID (lit ''u1''))) (lit ''Buy milk'') [])))"
proof -
  have one: "reachable (addItem (sconst (RandomUUID (lit ''u1''))) (lit ''Buy milk'') [])"
    by (rule reachable.add [OF reachable.initial]) (simp add: generated_def)
  have two: "reachable (addItem (sconst (RandomUUID (lit ''u2''))) (lit ''Walk dog'')
               (addItem (sconst (RandomUUID (lit ''u1''))) (lit ''Buy milk'') []))"
    by (rule reachable.add [OF one])
      (simp add: generated_def addItem_def Let_def lit_def)
  show ?thesis using two reachable_ids_distinct [OF two] by simp
qed

text \<open>
  C4 as stated fails on an import: the file
  \<open>[{"id": "a", "text": "x"}, {"id": "a", "text": "y"}]\<close> gives a list of two items
  with the same id.
\<close>

theorem importJSON_duplicate_ids:
  "fst (importJSON (sconst (RandomUUID (lit ''u1'')))
          (Some (Parsed (JArr [JObj [(key_id, JStr (lit ''a'')), (key_text, JStr (lit ''x''))],
                               JObj [(key_id, JStr (lit ''a'')), (key_text, JStr (lit ''y''))]])))
          [])
   = [\<lparr>id' = JStr (lit ''a''), text = lit ''x'', completed = False\<rparr>,
      \<lparr>id' = JStr (lit ''a''), text = lit ''y'', completed = False\<rparr>] \<and>
   \<not> distinct (map id' [\<lparr>id' = JStr (lit ''a''), text = lit ''x'', completed = False\<rparr>,
                         \<lparr>id' = JStr (lit ''a''), text = lit ''y'', completed = False\<rparr>])"
  by (simp add: importJSON_def usable_id_def new_completed_def lit_def)

section \<open>Non-empty texts\<close>

text \<open>
  Every operation other than the import keeps the texts non-empty: adding and editing
  store a trimmed text only when it is not empty, and the others store no text.
\<close>

lemma bulk_lines_nonempty: "l \<in> set (bulk_lines b) \<Longrightarrow> l \<noteq> []"
  by (auto simp: bulk_lines_def)

lemma texts_newItems: "\<forall>l\<in>set ls. l \<noteq> [] \<Longrightarrow> texts_nonempty (newItems rnd ls)"
  by (induction ls arbitrary: rnd) (simp_all add: texts_nonempty_def)

lemma texts_nonempty_kept:
  assumes "texts_nonempty s"
  shows "texts_nonempty (addItem rnd t s)"
    and "texts_nonempty (addBulkItems rnd b s)"
    and "texts_nonempty (removeItem i s)"
    and "texts_nonempty (toggleItem i s)"
    and "texts_nonempty (saveEdit e t s)"
    and "texts_nonempty (clearCompleted s)"
    and "reorder f k s = map Some s' \<Longrightarrow> texts_nonempty s'"
proof -
  show "texts_nonempty (addItem rnd t s)"
    using assms by (simp add: addItem_def Let_def texts_nonempty_def)
  have "texts_nonempty (newItems rnd (bulk_lines b))"
    by (rule texts_newItems) (simp add: bulk_lines_nonempty)
  then show "texts_nonempty (addBulkItems rnd b s)"
    using assms by (auto simp: addBulkItems_def Let_def texts_nonempty_def)
  show "texts_nonempty (removeItem i s)"
    using assms by (simp add: removeItem_def texts_nonempty_def)
  show "texts_nonempty (toggleItem i s)"
    using assms by (auto simp: toggleItem_def texts_nonempty_def)
  show "texts_nonempty (saveEdit e t s)"
    using assms
    by (cases e) (auto simp: saveEdit_def removeItem_def Let_def texts_nonempty_def)
  show "texts_nonempty (clearCompleted s)"
    using assms by (simp add: clearCompleted_def texts_nonempty_def)
  show "texts_nonempty s'" if "reorder f k s = map Some s'"
  proof -
    from that have "set s' = set s" by (metis reorder_mset mset_eq_setD)
    with assms show ?thesis by (simp add: texts_nonempty_def)
  qed
qed

text \<open>
  C3 at the input where the code breaks it. The import is the one operation that does not
  keep the texts non-empty: the file \<open>[{"text": ""}]\<close> parses to an array of one
  object whose \<open>text\<close> is the empty string, \<open>typeof x.text === "string"\<close> holds, the
  entry is kept, and the imported list has an item with empty text.
\<close>

theorem importJSON_empty_text:
  "importJSON (sconst (RandomUUID (lit ''u1'')))
     (Some (Parsed (JArr [JObj [(key_text, JStr [])]]))) []
   = ([\<lparr>id' = JStr (lit ''u1''), text = [], completed = False\<rparr>], None)"
  by (simp add: importJSON_def usable_id_def new_completed_def)

end
